theory Spec2Isabelle
  imports Complex_Main
begin

section \<open>Jewelry Box: text layout and display updates of \<^verbatim>\<open>jewelrybox.py\<close>\<close>

text \<open>
  The program receives text messages and commands from a chat transport, wraps a message
  into lines against a pixel budget, draws the lines on an image, hands the image to an
  e-paper driver and puts the panel back to sleep. The font, the imaging library, the
  panel driver and the transport are libraries outside the source file: the model takes
  their behaviour as a parameter (the record \<open>env\<close>), and every call the source makes to
  them is a call that may raise. An exception is the text Python would format for it
  with \<^verbatim>\<open>{e}\<close>.
\<close>

subsection \<open>Strings\<close>

text \<open>
  Python's \<^verbatim>\<open>s.split(sep)\<close> for a separator of one character cuts at every
  occurrence of it: the result is never empty, and two separators in a row, or one at
  either end, give an empty piece. \<open>split_on\<close> is that function for any class of
  separator characters.
\<close>

fun split_on :: "(char \<Rightarrow> bool) \<Rightarrow> string \<Rightarrow> string list" where
  "split_on P [] = [[]]"
| "split_on P (c # cs) =
     (if P c then [] # split_on P cs
      else (case split_on P cs of
              [] \<Rightarrow> [[c]]
            | w # ws \<Rightarrow> (c # w) # ws))"

text \<open>Line 157, \<^verbatim>\<open>text.split(' ')\<close>: the only separator is the space character.\<close>

definition str_split :: "string \<Rightarrow> string list" where
  "str_split text = split_on (\<lambda>c. c = CHR '' '') text"

text \<open>
  The words of the specification: the tokens of a string are what splitting on whitespace
  gives, the maximal runs of characters that are not whitespace (Python's
  \<^verbatim>\<open>s.split()\<close>). Whitespace is space, tab, line feed, vertical tab, form feed and
  carriage return.
\<close>

definition is_whitespace :: "char \<Rightarrow> bool" where
  "is_whitespace c =
     (c = CHR '' '' \<or> c = CHR 0x09 \<or> c = CHR 0x0A \<or> c = CHR 0x0B \<or> c = CHR 0x0C \<or> c = CHR 0x0D)"

definition whitespace_tokens :: "string \<Rightarrow> string list" where
  "whitespace_tokens s = filter (\<lambda>w. w \<noteq> []) (split_on is_whitespace s)"

text \<open>The words the source iterates over that are not empty.\<close>

definition nonempty_words :: "string \<Rightarrow> string list" where
  "nonempty_words s = filter (\<lambda>w. w \<noteq> []) (str_split s)"

text \<open>Python's \<^verbatim>\<open>str\<close> of an integer, for the f-strings of the log messages.\<close>

fun str_nat :: "nat \<Rightarrow> string" where
  "str_nat n =
     (if n < 10 then [char_of (48 + n)]
      else str_nat (n div 10) @ [char_of (48 + n mod 10)])"

declare str_nat.simps [simp del]

definition str_int :: "int \<Rightarrow> string" where
  "str_int i = (if i < 0 then ''-'' @ str_nat (nat (- i)) else str_nat (nat i))"

subsection \<open>The environment\<close>

text \<open>
  \<open>font18\<close> and \<open>font24\<close> are the two fonts loaded at start (lines 112 and 113).
  \<open>getlength\<close> of a font measures a string in pixels; Pillow returns a float, which is a
  rational number, and Python compares it exactly with the integer budget, so the model
  measures in \<open>real\<close>. The measurement may raise (\<open>Inl\<close>).
\<close>

datatype font = Font18 | Font24

type_synonym text_draw = "int \<times> int \<times> string"

record env =
  CHAT_ID :: int
  EPD_WIDTH :: int
  EPD_HEIGHT :: int
  getlength :: "font \<Rightarrow> string \<Rightarrow> string + real"
  epd_init :: "string option"
  epd_Clear :: "string option"
  epd_display :: "string option"
  epd_sleep :: "string option"
  epd_getbuffer :: "string option"
  Image_new :: "string option"
  draw_text :: "text_draw \<Rightarrow> string option"
  Image_rotate :: "string option"

text \<open>
  \<open>epd_init\<close>, \<open>epd_Clear\<close>, \<open>epd_display\<close>, \<open>epd_sleep\<close> and \<open>epd_getbuffer\<close> say
  whether the driver's method raises when called (\<open>Some\<close> the exception) or returns
  (\<open>None\<close>); \<open>Image_new\<close> stands for the four calls of lines 138 to 141 that create the
  two images and their drawing contexts, \<open>Image_rotate\<close> for the two rotations of lines
  179 and 180, \<open>draw_text\<close> for one call of \<^verbatim>\<open>draw_black.text\<close>. The imaging calls
  change nothing outside the local images, so one outcome for each group loses nothing.
\<close>

subsection \<open>The world the handlers act on\<close>

text \<open>
  What a handler does is visible in four places: the calls the driver received, each with
  its outcome, the replies sent back, the log, and whether the application was asked to
  stop. An image is the list of text drawn on a blank canvas; the second plane of a
  \<open>Display\<close> call is the red image, on which the source never draws.
\<close>

datatype sink_call = Init | Clear | Display "text_draw list" "text_draw list" | Sleep

datatype level = INFO | WARNING | ERROR

record world =
  sink :: "(sink_call \<times> string option) list"
  replies :: "string list"
  logs :: "(level \<times> string) list"
  stopped :: bool

definition epd_call :: "sink_call \<Rightarrow> string option \<Rightarrow> world \<Rightarrow> world" where
  "epd_call c outcome w = w\<lparr>sink := sink w @ [(c, outcome)]\<rparr>"

definition logging :: "level \<Rightarrow> string \<Rightarrow> world \<Rightarrow> world" where
  "logging lv msg w = w\<lparr>logs := logs w @ [(lv, msg)]\<rparr>"

text \<open>
  \<^verbatim>\<open>update.message.reply_text\<close>: the reply is handed to the transport. The transport's
  own failures are outside the model: a reply handed over is a reply sent.
\<close>

definition reply_text :: "string \<Rightarrow> world \<Rightarrow> world" where
  "reply_text msg w = w\<lparr>replies := replies w @ [msg]\<rparr>"

subsection \<open>The power states of the panel\<close>

text \<open>
  Modelled from the spec: the driver is a library outside the source file, and section 4.3
  of the specification gives the panel two states, \<open>Asleep\<close> and \<open>Active\<close>: a wake call
  that returns makes it \<open>Active\<close>, a sleep call that returns makes it \<open>Asleep\<close>, painting
  and clearing leave the state as it is. A call that raises is taken to leave the state
  as it is.
\<close>

datatype power = Asleep | Active

fun power_step :: "power \<Rightarrow> sink_call \<times> string option \<Rightarrow> power" where
  "power_step p (Init, None) = Active"
| "power_step p (Sleep, None) = Asleep"
| "power_step p other = p"

definition power_after :: "power \<Rightarrow> (sink_call \<times> string option) list \<Rightarrow> power" where
  "power_after p calls = foldl power_step p calls"

subsection \<open>Wrapping (lines 156 to 167)\<close>

text \<open>
  \<open>test_line\<close> is line 160: the current line, a space when the current line is not
  empty, and the word.
\<close>

definition test_line :: "string \<Rightarrow> string \<Rightarrow> string" where
  "test_line current_line word =
     current_line @ (if current_line \<noteq> [] then '' '' else []) @ word"

text \<open>
  The loop of lines 159 to 165 over the remaining words, with the lines closed so far and
  the current line. A measurement that raises ends the loop with the exception.
\<close>

fun wrap_loop ::
  "(string \<Rightarrow> string + real) \<Rightarrow> real \<Rightarrow> string list \<Rightarrow> string \<Rightarrow> string list
     \<Rightarrow> string + (string list \<times> string)" where
  "wrap_loop measure_of budget lines current_line [] = Inr (lines, current_line)"
| "wrap_loop measure_of budget lines current_line (word # words) =
     (case measure_of (test_line current_line word) of
        Inl e \<Rightarrow> Inl e
      | Inr len \<Rightarrow>
          if len \<le> budget
          then wrap_loop measure_of budget lines (test_line current_line word) words
          else wrap_loop measure_of budget (lines @ [current_line]) word words)"

text \<open>
  Lines 152 to 167: the width to wrap against is the panel's height, the budget is ten
  pixels less, and the current line left by the loop is appended when it is not empty.
\<close>

definition wrap :: "env \<Rightarrow> font \<Rightarrow> string \<Rightarrow> string + string list" where
  "wrap env current_font text =
     (let display_width = EPD_HEIGHT env in
      case wrap_loop (getlength env current_font) (of_int (display_width - 10)) [] []
             (str_split text) of
        Inl e \<Rightarrow> Inl e
      | Inr (lines, current_line) \<Rightarrow>
          Inr (if current_line \<noteq> [] then lines @ [current_line] else lines))"

subsection \<open>Drawing (lines 169 to 176)\<close>

text \<open>
  The loop over the lines stops at the first line whose bottom would pass the lower
  padding; a drawing call that raises ends it with the exception.
\<close>

fun draw_lines ::
  "(text_draw \<Rightarrow> string option) \<Rightarrow> int \<Rightarrow> int \<Rightarrow> int \<Rightarrow> string list
     \<Rightarrow> string + text_draw list" where
  "draw_lines draw line_height display_height y_offset [] = Inr []"
| "draw_lines draw line_height display_height y_offset (line # lines) =
     (if y_offset + line_height > display_height - 5 then Inr []
      else (case draw (5, y_offset, line) of
              Some e \<Rightarrow> Inl e
            | None \<Rightarrow>
                (case draw_lines draw line_height display_height (y_offset + line_height) lines of
                   Inl e \<Rightarrow> Inl e
                 | Inr drawn \<Rightarrow> Inr ((5, y_offset, line) # drawn))))"

subsection \<open>\<^verbatim>\<open>display_message\<close> (lines 132 to 189)\<close>

definition select_font :: "int \<Rightarrow> font" where
  "select_font font_size =
     (if font_size = 18 then Font18 else if font_size = 24 then Font24 else Font18)"

text \<open>
  The body of the \<^verbatim>\<open>try\<close>: the exception that left it, if any, and the world at that
  moment.
\<close>

definition display_message_try :: "env \<Rightarrow> string \<Rightarrow> int \<Rightarrow> world \<Rightarrow> string option \<times> world" where
  "display_message_try env text font_size w0 =
     (let w1 = epd_call Init (epd_init env) w0 in
      case epd_init env of Some e \<Rightarrow> (Some e, w1) | None \<Rightarrow>
      (case Image_new env of Some e \<Rightarrow> (Some e, w1) | None \<Rightarrow>
      (let current_font = select_font font_size;
           display_height = EPD_WIDTH env in
       case wrap env current_font text of Inl e \<Rightarrow> (Some e, w1) | Inr lines \<Rightarrow>
       (case draw_lines (draw_text env) (font_size + 2) display_height 5 lines of
          Inl e \<Rightarrow> (Some e, w1)
        | Inr image_black \<Rightarrow>
       (case Image_rotate env of Some e \<Rightarrow> (Some e, w1) | None \<Rightarrow>
       (case epd_getbuffer env of Some e \<Rightarrow> (Some e, w1) | None \<Rightarrow>
       (let w2 = epd_call (Display image_black []) (epd_display env) w1 in
        case epd_display env of Some e \<Rightarrow> (Some e, w2) | None \<Rightarrow>
        (let w3 = logging INFO ''Message sent to display.'' w2;
             w4 = epd_call Sleep (epd_sleep env) w3 in
         case epd_sleep env of Some e \<Rightarrow> (Some e, w4) | None \<Rightarrow>
           (None, logging INFO ''Display put to sleep after update.'' w4)))))))))"

definition display_message :: "env \<Rightarrow> string \<Rightarrow> int \<Rightarrow> world \<Rightarrow> world" where
  "display_message env text font_size w0 =
     (case display_message_try env text font_size w0 of
        (None, w) \<Rightarrow> w
      | (Some e, w) \<Rightarrow> logging ERROR (''Error displaying message: '' @ e) w)"

subsection \<open>The handlers (lines 199 to 252)\<close>

record update =
  effective_user_id :: int
  message_text :: string

definition start_command :: "env \<Rightarrow> update \<Rightarrow> world \<Rightarrow> world" where
  "start_command env u w0 =
     (let w1 = logging INFO (''Received /start command from '' @ str_int (effective_user_id u)) w0 in
      if effective_user_id u \<noteq> CHAT_ID env then
        reply_text ''You are not authorized to control this bot.''
          (logging WARNING
             (''Unauthorized user '' @ str_int (effective_user_id u)
                @ '' tried to use bot. Expected chat_id: '' @ str_int (CHAT_ID env)) w1)
      else
        reply_text
          ''Welcome to your Jewelry Box! Send me a message to display on the e-paper screen.'' w1)"

definition handle_message :: "env \<Rightarrow> update \<Rightarrow> world \<Rightarrow> world" where
  "handle_message env u w0 =
     (let user_id = effective_user_id u;
          w1 = logging INFO
                 (''Received message from '' @ str_int user_id @ '': '' @ [CHR 0x27]
                    @ message_text u @ [CHR 0x27]) w0 in
      if user_id \<noteq> CHAT_ID env then
        reply_text ''You are not authorized to send messages to this display.''
          (logging WARNING
             (''Unauthorized message from '' @ str_int user_id
                @ ''. Expected chat_id: '' @ str_int (CHAT_ID env)) w1)
      else
        reply_text ''Message sent to e-paper display!''
          (display_message env (message_text u) 24 w1))"

definition clear_try :: "env \<Rightarrow> world \<Rightarrow> string option \<times> world" where
  "clear_try env w1 =
     (let w2 = epd_call Init (epd_init env) w1 in
      case epd_init env of Some e \<Rightarrow> (Some e, w2) | None \<Rightarrow>
      (let w3 = epd_call Clear (epd_Clear env) w2 in
       case epd_Clear env of Some e \<Rightarrow> (Some e, w3) | None \<Rightarrow>
       (let w4 = epd_call Sleep (epd_sleep env) w3 in
        case epd_sleep env of Some e \<Rightarrow> (Some e, w4) | None \<Rightarrow>
          (None, logging INFO ''E-paper display cleared by command.''
                   (reply_text ''E-paper display cleared!'' w4)))))"

definition clear_command :: "env \<Rightarrow> update \<Rightarrow> world \<Rightarrow> world" where
  "clear_command env u w0 =
     (let user_id = effective_user_id u;
          w1 = logging INFO (''Received /clear command from '' @ str_int user_id) w0 in
      if user_id \<noteq> CHAT_ID env then
        reply_text ''You are not authorized to clear this display.''
          (logging WARNING
             (''Unauthorized user '' @ str_int user_id
                @ '' tried to clear display. Expected chat_id: '' @ str_int (CHAT_ID env)) w1)
      else
        (case clear_try env w1 of
           (None, w) \<Rightarrow> w
         | (Some e, w) \<Rightarrow>
             reply_text (''Error clearing display: '' @ e)
               (logging ERROR (''Error clearing display via command: '' @ e) w)))"

definition shutdown_command :: "env \<Rightarrow> update \<Rightarrow> world \<Rightarrow> world" where
  "shutdown_command env u w0 =
     (let user_id = effective_user_id u;
          w1 = logging INFO (''Received /shutdown command from '' @ str_int user_id) w0 in
      if user_id \<noteq> CHAT_ID env then
        reply_text ''You are not authorized to shutdown the bot.''
          (logging WARNING
             (''Unauthorized user '' @ str_int user_id
                @ '' tried to shutdown. Expected chat_id: '' @ str_int (CHAT_ID env)) w1)
      else
        (let w2 = reply_text
                    ''Shutting down bot. The display will remain as is. Restart the script on the Pi to resume.''
                    w1;
             w3 = logging INFO ''Bot shutting down gracefully.'' w2 in
         w3\<lparr>stopped := True\<rparr>))"

text \<open>
  What the transport library (python-telegram-bot, outside the source file) makes of an
  inbound message before any handler runs: a message that begins with a bot command,
  with the name of the command; text that is not a command; a message without text (a
  photograph, a sticker). \<^verbatim>\<open>allowed_updates\<close> (line 269) lets only messages in.
\<close>

datatype message_kind = Command string | PlainText | NoText

text \<open>
  The handlers \<^verbatim>\<open>main\<close> registers (lines 260 to 265): a command handler for each of
  \<^verbatim>\<open>start\<close>, \<^verbatim>\<open>clear\<close> and \<^verbatim>\<open>shutdown\<close>, and a message handler for
  \<^verbatim>\<open>filters.TEXT & ~filters.COMMAND\<close>. The library runs the first handler that takes
  the message; a message that none takes (another command, a message without text) runs
  no code of the source file, and the world stays as it is.
\<close>

definition dispatch :: "env \<Rightarrow> message_kind \<Rightarrow> update \<Rightarrow> world \<Rightarrow> world" where
  "dispatch env kind u w =
     (case kind of
        Command name \<Rightarrow>
          if name = ''start'' then start_command env u w
          else if name = ''clear'' then clear_command env u w
          else if name = ''shutdown'' then shutdown_command env u w
          else w
      | PlainText \<Rightarrow> handle_message env u w
      | NoText \<Rightarrow> w)"

text \<open>The messages that one of the registered handlers takes.\<close>

definition taken :: "message_kind \<Rightarrow> bool" where
  "taken kind =
     (case kind of
        Command name \<Rightarrow> name = ''start'' \<or> name = ''clear'' \<or> name = ''shutdown''
      | PlainText \<Rightarrow> True
      | NoText \<Rightarrow> False)"

subsection \<open>The specification's wrap, and fonts to compare against\<close>

text \<open>
  The specification's words for the wrap step (section 4.1): a token is appended to the
  current line, after a single space, as long as the line so made measures at most the
  usable width; otherwise the current line is closed and a new line begins with the
  token; an empty input gives no line. \<open>greedy_lines\<close> gives the lines still to come
  for a current line and the tokens left.
\<close>

fun greedy_lines :: "(string \<Rightarrow> real) \<Rightarrow> real \<Rightarrow> string \<Rightarrow> string list \<Rightarrow> string list" where
  "greedy_lines m usable_width cur [] = (if cur = [] then [] else [cur])"
| "greedy_lines m usable_width cur (t # ts) =
     (let joined = (if cur = [] then t else cur @ '' '' @ t) in
      if m joined \<le> usable_width then greedy_lines m usable_width joined ts
      else cur # greedy_lines m usable_width t ts)"

text \<open>The wrap of the specification: the greedy lines of the whitespace tokens.\<close>

definition spec_wrap :: "(string \<Rightarrow> real) \<Rightarrow> real \<Rightarrow> string \<Rightarrow> string list" where
  "spec_wrap m usable_width text = greedy_lines m usable_width [] (whitespace_tokens text)"

text \<open>
  A measure is monotone when a string is at least as wide as each of its prefixes and
  suffixes, as it is for a font whose glyphs have no negative advance.
\<close>

definition monotone_measure :: "(string \<Rightarrow> real) \<Rightarrow> bool" where
  "monotone_measure m = (\<forall>a b. m a \<le> m (a @ b) \<and> m b \<le> m (a @ b))"

text \<open>
  The font of the specification's scenario, six pixels for every character, and two
  panels with it: the 122 by 250 panel of the driver the source imports, and one only 40
  pixels long, on which few characters fit a line. On both, every library call returns.
\<close>

definition six_px :: "string \<Rightarrow> real" where
  "six_px s = 6 * real (length s)"

text \<open>
  A measure that is not monotone: the string \<open>wide\<close> measures 100 pixels, every other
  string nothing.
\<close>

definition only_wide :: "string \<Rightarrow> real" where
  "only_wide s = (if s = ''wide'' then 100 else 0)"

definition panel :: env where
  "panel = \<lparr>CHAT_ID = 1001, EPD_WIDTH = 122, EPD_HEIGHT = 250,
             getlength = (\<lambda>f s. Inr (six_px s)),
             epd_init = None, epd_Clear = None, epd_display = None, epd_sleep = None,
             epd_getbuffer = None, Image_new = None, draw_text = (\<lambda>d. None),
             Image_rotate = None\<rparr>"

definition short_panel :: env where
  "short_panel = panel\<lparr>EPD_HEIGHT := 40\<rparr>"

text \<open>The world before a handler runs: nothing sent to the panel, said or logged yet.\<close>

definition quiet :: world where
  "quiet = \<lparr>sink = [], replies = [], logs = [], stopped = False\<rparr>"

text \<open>
  The same panel with a driver whose \<^verbatim>\<open>display\<close> call raises, and with one whose
  \<^verbatim>\<open>Clear\<close> call raises.
\<close>

definition paint_fails :: env where
  "paint_fails = panel\<lparr>epd_display := Some ''SPI bus error''\<rparr>"

definition clear_fails :: env where
  "clear_fails = panel\<lparr>epd_Clear := Some ''SPI bus error''\<rparr>"

text \<open>An update from the configured identity of \<open>panel\<close>, and one from another identity.\<close>

definition owner :: "string \<Rightarrow> update" where
  "owner s = \<lparr>effective_user_id = 1001, message_text = s\<rparr>"

definition stranger :: "string \<Rightarrow> update" where
  "stranger s = \<lparr>effective_user_id = 7, message_text = s\<rparr>"

text \<open>
  The steps of the \<^verbatim>\<open>try\<close> body of \<^verbatim>\<open>display_message\<close> between the wake and
  the paint (lines 138 to 180, and the two \<^verbatim>\<open>getbuffer\<close> calls of line 182), which
  touch the local images only: the exception that ends them, or the black image. It
  serves to state what \<open>display_message_try\<close> does stage by stage.
\<close>

definition prepared :: "env \<Rightarrow> string \<Rightarrow> int \<Rightarrow> string + text_draw list" where
  "prepared env s font_size =
     (case Image_new env of Some e \<Rightarrow> Inl e | None \<Rightarrow>
      (case wrap env (select_font font_size) s of Inl e \<Rightarrow> Inl e | Inr lines \<Rightarrow>
       (case draw_lines (draw_text env) (font_size + 2) (EPD_WIDTH env) 5 lines of
          Inl e \<Rightarrow> Inl e
        | Inr image_black \<Rightarrow>
          (case Image_rotate env of Some e \<Rightarrow> Inl e | None \<Rightarrow>
           (case epd_getbuffer env of Some e \<Rightarrow> Inl e | None \<Rightarrow> Inr image_black)))))"

section \<open>Properties of the wrap step\<close>

subsection \<open>Splitting\<close>

lemma split_on_not_Nil [simp]: "split_on P s \<noteq> []"
  by (induction s) (auto split: list.splits)

text \<open>A separator between two strings separates their pieces.\<close>

lemma split_on_append_sep:
  "P c \<Longrightarrow> split_on P (a @ c # b) = split_on P a @ split_on P b"
proof (induction a)
  case Nil
  then show ?case by simp
next
  case (Cons x a)
  obtain v vs where "split_on P a = v # vs"
    by (cases "split_on P a") auto
  with Cons show ?case by simp
qed

text \<open>Splitting on fewer separators first and on all of them afterwards changes nothing.\<close>

lemma split_on_refine:
  assumes "\<And>c. Q c \<Longrightarrow> P c"
  shows "split_on P s = concat (map (split_on P) (split_on Q s))"
proof (induction s)
  case Nil
  show ?case by simp
next
  case (Cons c cs)
  obtain w ws where q: "split_on Q cs = w # ws"
    by (cases "split_on Q cs") auto
  obtain v vs where p: "split_on P w = v # vs"
    by (cases "split_on P w") auto
  show ?case
  proof (cases "Q c")
    case True
    with assms[of c] Cons show ?thesis by simp
  next
    case False
    with Cons q p show ?thesis by (cases "P c") auto
  qed
qed

lemma filter_split_on_refine:
  assumes "\<And>c. Q c \<Longrightarrow> P c"
  shows "concat (map (\<lambda>w. filter p (split_on P w)) (split_on Q s)) = filter p (split_on P s)"
proof -
  have "split_on P s = concat (map (split_on P) (split_on Q s))"
    by (rule split_on_refine) (rule assms)
  then have "filter p (split_on P s) = filter p (concat (map (split_on P) (split_on Q s)))"
    by (rule arg_cong)
  also have "\<dots> = concat (map (\<lambda>w. filter p (split_on P w)) (split_on Q s))"
    by (simp add: filter_concat comp_def)
  finally show ?thesis by (rule sym)
qed

lemma whitespace_tokens_Nil: "whitespace_tokens [] = []"
  by (simp add: whitespace_tokens_def)

lemma whitespace_tokens_join:
  "whitespace_tokens (a @ '' '' @ b) = whitespace_tokens a @ whitespace_tokens b"
  using split_on_append_sep[of is_whitespace "CHR '' ''" a b]
  by (simp add: whitespace_tokens_def is_whitespace_def)

lemma whitespace_tokens_words:
  "concat (map whitespace_tokens (str_split s)) = whitespace_tokens s"
  unfolding whitespace_tokens_def str_split_def
  by (rule filter_split_on_refine) (simp add: is_whitespace_def)

lemma nonempty_words_Nil: "nonempty_words [] = []"
  by (simp add: nonempty_words_def str_split_def)

lemma nonempty_words_join:
  "nonempty_words (a @ '' '' @ b) = nonempty_words a @ nonempty_words b"
  using split_on_append_sep[of "\<lambda>c. c = CHR '' ''" "CHR '' ''" a b]
  by (simp add: nonempty_words_def str_split_def)

lemma nonempty_words_words:
  "concat (map nonempty_words (str_split s)) = nonempty_words s"
  unfolding nonempty_words_def str_split_def
  by (rule filter_split_on_refine)

subsection \<open>The loop of the source and the greedy lines\<close>

lemma test_line_joined:
  "test_line cur t = (if cur = [] then t else cur @ '' '' @ t)"
  by (simp add: test_line_def)

text \<open>
  With a font that always measures, the loop returns, and the lines it closed followed by
  the line it left are the lines closed before followed by the greedy lines.
\<close>

lemma wrap_loop_total:
  "\<exists>ls c. wrap_loop (\<lambda>s. Inr (m s)) W lines cur ws = Inr (ls, c)
      \<and> (if c \<noteq> [] then ls @ [c] else ls) = lines @ greedy_lines m W cur ws"
proof (induction ws arbitrary: lines cur)
  case Nil
  show ?case by simp
next
  case (Cons t ts)
  show ?case
  proof (cases "m (test_line cur t) \<le> W")
    case True
    from Cons[of lines "test_line cur t"] obtain ls c where
      "wrap_loop (\<lambda>s. Inr (m s)) W lines (test_line cur t) ts = Inr (ls, c)"
      "(if c \<noteq> [] then ls @ [c] else ls) = lines @ greedy_lines m W (test_line cur t) ts"
      by blast
    with True have
      "wrap_loop (\<lambda>s. Inr (m s)) W lines cur (t # ts) = Inr (ls, c)
        \<and> (if c \<noteq> [] then ls @ [c] else ls) = lines @ greedy_lines m W cur (t # ts)"
      by (simp add: test_line_joined Let_def)
    then show ?thesis by blast
  next
    case False
    from Cons[of "lines @ [cur]" t] obtain ls c where
      "wrap_loop (\<lambda>s. Inr (m s)) W (lines @ [cur]) t ts = Inr (ls, c)"
      "(if c \<noteq> [] then ls @ [c] else ls) = (lines @ [cur]) @ greedy_lines m W t ts"
      by blast
    with False have
      "wrap_loop (\<lambda>s. Inr (m s)) W lines cur (t # ts) = Inr (ls, c)
        \<and> (if c \<noteq> [] then ls @ [c] else ls) = lines @ greedy_lines m W cur (t # ts)"
      by (simp add: test_line_joined Let_def)
    then show ?thesis by blast
  qed
qed

lemma wrap_greedy:
  "wrap (env\<lparr>getlength := \<lambda>f s. Inr (m f s)\<rparr>) fnt s
     = Inr (greedy_lines (m fnt) (of_int (EPD_HEIGHT env - 10)) [] (str_split s))"
proof -
  let ?W = "of_int (EPD_HEIGHT env - 10) :: real"
  obtain ls c where h: "wrap_loop (\<lambda>s. Inr (m fnt s)) ?W [] [] (str_split s) = Inr (ls, c)"
    and g: "(if c \<noteq> [] then ls @ [c] else ls) = [] @ greedy_lines (m fnt) ?W [] (str_split s)"
    using wrap_loop_total[of "m fnt" ?W "[]" "[]" "str_split s"] by blast
  show ?thesis using h g by (simp add: wrap_def)
qed

text \<open>
  Whatever reads tokens off a string, as long as a space between two strings separates
  their tokens: the tokens of the greedy lines are those of the current line and of the
  words, in order.
\<close>

lemma greedy_tokens:
  assumes T0: "T [] = []" and Tj: "\<And>a b. T (a @ '' '' @ b) = T a @ T b"
  shows "concat (map T (greedy_lines m W cur ws)) = T cur @ concat (map T ws)"
proof (induction ws arbitrary: cur)
  case Nil
  show ?case by (simp add: T0)
next
  case (Cons t ts)
  show ?case
  proof (cases "cur = []")
    case True
    then show ?thesis using Cons[of t] Cons[of "[]"] by (simp add: T0 Let_def)
  next
    case False
    then show ?thesis using Cons[of t] Cons[of "cur @ '' '' @ t"] Tj[of cur t]
      by (simp add: Let_def)
  qed
qed

text \<open>A piece of a split holds no separator, and a string without separator is one piece.\<close>

lemma split_on_no_sep:
  "w \<in> set (split_on P s) \<Longrightarrow> c \<in> set w \<Longrightarrow> \<not> P c"
proof (induction s arbitrary: w)
  case Nil
  then show ?case by simp
next
  case (Cons x xs)
  obtain v vs where vs: "split_on P xs = v # vs"
    by (cases "split_on P xs") auto
  show ?case
  proof (cases "P x")
    case True
    with Cons.prems have "w = [] \<or> w \<in> set (split_on P xs)" by simp
    with Cons.prems(2) Cons.IH show ?thesis by auto
  next
    case False
    with Cons.prems vs have "w = x # v \<or> w \<in> set vs" by simp
    then show ?thesis
    proof
      assume "w = x # v"
      with Cons.prems(2) have "c = x \<or> c \<in> set v" by simp
      moreover have "v \<in> set (split_on P xs)" using vs by simp
      ultimately show ?thesis using False Cons.IH by blast
    next
      assume "w \<in> set vs"
      then have "w \<in> set (split_on P xs)" using vs by simp
      with Cons.prems(2) Cons.IH show ?thesis by blast
    qed
  qed
qed

lemma split_on_whole:
  "(\<And>c. c \<in> set w \<Longrightarrow> \<not> P c) \<Longrightarrow> split_on P w = [w]"
  by (induction w) simp_all

text \<open>The words of a split, read for their words again, are the words that are not empty.\<close>

lemma nonempty_words_of_words:
  assumes "set ws \<subseteq> set (str_split s)"
  shows "concat (map nonempty_words ws) = filter (\<lambda>w. w \<noteq> []) ws"
  using assms
proof (induction ws)
  case Nil
  show ?case by simp
next
  case (Cons w ws)
  have "w \<in> set (split_on (\<lambda>c. c = CHR '' '') s)"
    using Cons.prems by (simp add: str_split_def)
  then have "split_on (\<lambda>c. c = CHR '' '') w = [w]"
    by (intro split_on_whole) (rule split_on_no_sep)
  then have "nonempty_words w = (if w = [] then [] else [w])"
    by (simp add: nonempty_words_def str_split_def)
  with Cons show ?case by simp
qed

text \<open>
  When every word fits, and the current line fits or is empty, every greedy line fits.
\<close>

lemma greedy_fits:
  assumes "\<forall>t\<in>set ws. m t \<le> W" and "cur = [] \<or> m cur \<le> W"
  shows "\<forall>l\<in>set (greedy_lines m W cur ws). m l \<le> W"
  using assms
proof (induction ws arbitrary: cur)
  case Nil
  then show ?case by auto
next
  case (Cons t ts)
  let ?j = "if cur = [] then t else cur @ '' '' @ t"
  have ts: "\<forall>t\<in>set ts. m t \<le> W" and t: "m t \<le> W"
    using Cons.prems(1) by simp_all
  show ?case
  proof (cases "m ?j \<le> W")
    case True
    then have "\<forall>l\<in>set (greedy_lines m W ?j ts). m l \<le> W"
      by (intro Cons.IH ts) (rule disjI2)
    moreover have "greedy_lines m W cur (t # ts) = greedy_lines m W ?j ts"
      using True by (simp add: Let_def)
    ultimately show ?thesis by (simp only:)
  next
    case False
    have "cur \<noteq> []" using False t by auto
    with Cons.prems(2) have cur: "m cur \<le> W" by simp
    have "\<forall>l\<in>set (greedy_lines m W t ts). m l \<le> W"
      by (intro Cons.IH ts) (rule disjI2, rule t)
    moreover have "greedy_lines m W cur (t # ts) = cur # greedy_lines m W t ts"
      using False by (simp add: Let_def)
    ultimately show ?thesis using cur by simp
  qed
qed

text \<open>
  Under a monotone measure, a word wider than the budget is a line of its own: the lines
  before it hold the tokens of the current line and of the words before it, the lines
  after it the tokens of the words after it.
\<close>

lemma greedy_wide_token:
  assumes mono: "monotone_measure m" and wide: "W < m t" and ne: "t \<noteq> []"
    and T0: "T [] = []" and Tj: "\<And>a b. T (a @ '' '' @ b) = T a @ T b"
  shows "\<exists>la lb. greedy_lines m W cur (pre @ t # post) = la @ [t] @ lb
           \<and> concat (map T la) = T cur @ concat (map T pre)
           \<and> concat (map T lb) = concat (map T post)"
proof (induction pre arbitrary: cur)
  case Nil
  let ?j = "if cur = [] then t else cur @ '' '' @ t"
  have "m t \<le> m ((cur @ '' '') @ t)" using mono unfolding monotone_measure_def by blast
  then have "m t \<le> m ?j" by simp
  with wide have nofit: "\<not> m ?j \<le> W" by simp
  have rest: "\<exists>lb. greedy_lines m W t post = t # lb \<and> concat (map T lb) = concat (map T post)"
  proof (cases post)
    case Nil
    with ne show ?thesis by simp
  next
    case (Cons u us)
    have "m t \<le> m (t @ '' '' @ u)" using mono unfolding monotone_measure_def by blast
    with wide have "\<not> m (t @ '' '' @ u) \<le> W" by simp
    with Cons ne have "greedy_lines m W t post = t # greedy_lines m W u us"
      by (simp add: Let_def)
    moreover have "concat (map T (greedy_lines m W u us)) = concat (map T post)"
      using Cons by (simp add: greedy_tokens[of T, OF T0 Tj])
    ultimately show ?thesis by blast
  qed
  then obtain lb where lb: "greedy_lines m W t post = t # lb"
    "concat (map T lb) = concat (map T post)" by blast
  from nofit lb have "greedy_lines m W cur ([] @ t # post) = [cur] @ [t] @ lb"
    by (simp add: Let_def)
  moreover have "concat (map T [cur]) = T cur @ concat (map T [])" by simp
  ultimately show ?case using lb(2) by blast
next
  case (Cons p ps)
  let ?j = "if cur = [] then p else cur @ '' '' @ p"
  have Tjoin: "T ?j = T cur @ T p" using T0 Tj[of cur p] by simp
  show ?case
  proof (cases "m ?j \<le> W")
    case True
    from Cons[of ?j] obtain la lb where
      "greedy_lines m W ?j (ps @ t # post) = la @ [t] @ lb"
      "concat (map T la) = T ?j @ concat (map T ps)"
      "concat (map T lb) = concat (map T post)" by blast
    with True Tjoin have "greedy_lines m W cur ((p # ps) @ t # post) = la @ [t] @ lb
        \<and> concat (map T la) = T cur @ concat (map T (p # ps))
        \<and> concat (map T lb) = concat (map T post)"
      by (simp add: Let_def)
    then show ?thesis by blast
  next
    case False
    from Cons[of p] obtain la lb where
      "greedy_lines m W p (ps @ t # post) = la @ [t] @ lb"
      "concat (map T la) = T p @ concat (map T ps)"
      "concat (map T lb) = concat (map T post)" by blast
    with False have "greedy_lines m W cur ((p # ps) @ t # post) = (cur # la) @ [t] @ lb
        \<and> concat (map T (cur # la)) = T cur @ concat (map T (p # ps))
        \<and> concat (map T lb) = concat (map T post)"
      by (simp add: Let_def)
    then show ?thesis by blast
  qed
qed

lemma six_px_monotone: "monotone_measure six_px"
  by (simp add: monotone_measure_def six_px_def)

subsection \<open>Evaluating the wrap on a given string\<close>

lemmas eval_wrap = wrap_def str_split_def test_line_def panel_def short_panel_def six_px_def
  Let_def whitespace_tokens_def is_whitespace_def spec_wrap_def

subsection \<open>The claims about the wrap step\<close>

text \<open>
  Claim C2, as the specification words it: the lines are the greedy lines of the tokens
  got by splitting the input on whitespace. The source splits on the space character
  only (line 157). On \<open>''a  b''\<close>, with two spaces, on the 250 pixel panel with the six
  pixel font, the source makes the one line \<open>''a  b''\<close>, two spaces kept, where the
  greedy lines of the whitespace tokens are the one line \<open>''a b''\<close>.
\<close>

theorem wrap_whitespace_split_counterexample:
  "wrap panel Font24 ''a  b'' = Inr [''a  b'']
     \<and> spec_wrap six_px (of_int (EPD_HEIGHT panel - 10)) ''a  b'' = [''a b'']"
  by (simp add: eval_wrap)

text \<open>
  Claim C2, amended: for every input string and every font that measures every string,
  the wrap step returns the greedy lines of the words got by splitting the input at
  every space character (so that two spaces in a row give an empty word, and tabs and
  line feeds stay inside a word): a word is appended to the current line, after a single
  space when the current line is not empty, as long as the line so made measures at most
  the panel's long side less ten pixels; otherwise the current line is closed and a new
  line begins with the word.
\<close>

theorem wrap_is_greedy_on_space_split:
  "wrap (env\<lparr>getlength := \<lambda>f s. Inr (m f s)\<rparr>) fnt s
     = Inr (greedy_lines (m fnt) (of_int (EPD_HEIGHT env - 10)) [] (str_split s))"
  by (rule wrap_greedy)

text \<open>
  Claim C3, as stated: a token wider than the usable width is put alone on a line of its
  own. The tokens of the specification are delimited by whitespace, the words of the
  source by the space character: on the 40 pixel panel with the six pixel font the
  input \<open>hi\<close>, tab, \<open>incomprehensibilities\<close> has the over-wide token
  \<open>incomprehensibilities\<close>, and the source returns an empty line and the whole input
  as one line, so the token shares its line with \<open>hi\<close>. The claim also leans on the
  font: with the measure \<open>only_wide\<close>, which is not monotone, the input \<open>''a wide''\<close>
  comes back as the one line \<open>''a wide''\<close> although \<open>''wide''\<close> alone is over-wide.
\<close>

theorem wide_token_whitespace_counterexample:
  "whitespace_tokens (''hi'' @ [CHR 0x09] @ ''incomprehensibilities'')
      = [''hi'', ''incomprehensibilities'']
   \<and> of_int (EPD_HEIGHT short_panel - 10) < six_px ''incomprehensibilities''
   \<and> wrap short_panel Font24 (''hi'' @ [CHR 0x09] @ ''incomprehensibilities'')
      = Inr [[], ''hi'' @ [CHR 0x09] @ ''incomprehensibilities'']
   \<and> ''incomprehensibilities'' \<notin> set [[], ''hi'' @ [CHR 0x09] @ ''incomprehensibilities'']
   \<and> of_int (EPD_HEIGHT short_panel - 10) < only_wide ''wide''
   \<and> wrap (short_panel\<lparr>getlength := \<lambda>f s. Inr (only_wide s)\<rparr>) Font24 ''a wide''
      = Inr [''a wide'']"
  by (simp add: eval_wrap only_wide_def)

text \<open>
  Claim C3, amended: for every input containing a word that is delimited by space
  characters, is not empty and measures wider than the usable width, and every font
  that measures every string and whose measure is monotone, the wrap step returns (the
  functions of the model are total, and the result is a list of lines, not an
  exception), never splits the word, and places it alone on a line of its own: the lines
  before it hold exactly the words before it, the lines after it exactly the words after
  it.
\<close>

theorem wide_token_own_line:
  assumes "monotone_measure (m fnt)"
    and "str_split s = pre @ t # post"
    and "t \<noteq> []"
    and "of_int (EPD_HEIGHT env - 10) < m fnt t"
  shows "\<exists>la lb. wrap (env\<lparr>getlength := \<lambda>f s. Inr (m f s)\<rparr>) fnt s = Inr (la @ [t] @ lb)
           \<and> concat (map nonempty_words la) = filter (\<lambda>w. w \<noteq> []) pre
           \<and> concat (map nonempty_words lb) = filter (\<lambda>w. w \<noteq> []) post"
proof -
  let ?W = "of_int (EPD_HEIGHT env - 10) :: real"
  from greedy_wide_token[of "m fnt" ?W t nonempty_words "[]" pre post,
      OF assms(1) assms(4) assms(3) nonempty_words_Nil nonempty_words_join]
  obtain la lb where g: "greedy_lines (m fnt) ?W [] (pre @ t # post) = la @ [t] @ lb"
    and a: "concat (map nonempty_words la) = nonempty_words [] @ concat (map nonempty_words pre)"
    and b: "concat (map nonempty_words lb) = concat (map nonempty_words post)"
    by blast
  have "set pre \<subseteq> set (str_split s)"
    using assms(2) by auto
  then have pre: "concat (map nonempty_words pre) = filter (\<lambda>w. w \<noteq> []) pre"
    by (rule nonempty_words_of_words)
  have "set post \<subseteq> set (str_split s)"
    using assms(2) by auto
  then have "concat (map nonempty_words post) = filter (\<lambda>w. w \<noteq> []) post"
    by (rule nonempty_words_of_words)
  with pre a b have "concat (map nonempty_words la) = filter (\<lambda>w. w \<noteq> []) pre"
    "concat (map nonempty_words lb) = filter (\<lambda>w. w \<noteq> []) post"
    by (simp_all add: nonempty_words_Nil)
  moreover have "wrap (env\<lparr>getlength := \<lambda>f s. Inr (m f s)\<rparr>) fnt s = Inr (la @ [t] @ lb)"
    using g assms(2) by (simp add: wrap_greedy)
  ultimately show ?thesis by blast
qed

theorem wide_token_own_line_witness:
  "monotone_measure six_px
     \<and> str_split ''hi incomprehensibilities yo'' = [''hi''] @ ''incomprehensibilities'' # [''yo'']
     \<and> of_int (EPD_HEIGHT short_panel - 10) < six_px ''incomprehensibilities''
     \<and> (\<exists>la lb. wrap (short_panel\<lparr>getlength := \<lambda>f s. Inr (six_px s)\<rparr>) Font24
                    ''hi incomprehensibilities yo''
                  = Inr (la @ [''incomprehensibilities''] @ lb)
                \<and> concat (map nonempty_words la) = filter (\<lambda>w. w \<noteq> []) [''hi'']
                \<and> concat (map nonempty_words lb) = filter (\<lambda>w. w \<noteq> []) [''yo''])"
proof -
  have h1: "monotone_measure six_px" by (rule six_px_monotone)
  have h2: "str_split ''hi incomprehensibilities yo''
              = [''hi''] @ ''incomprehensibilities'' # [''yo'']"
    by (simp add: str_split_def)
  have h3: "''incomprehensibilities'' \<noteq> []" by simp
  have h4: "of_int (EPD_HEIGHT short_panel - 10) < six_px ''incomprehensibilities''"
    by (simp add: short_panel_def panel_def six_px_def)
  from wide_token_own_line[of "\<lambda>f. six_px" Font24 _ _ _ _ short_panel, OF h1 h2 h3 h4]
  show ?thesis using h1 h2 h4 by blast
qed

text \<open>
  Claim C5: for every input string, the tokens of the lines the wrap step returns, before
  any truncation, one line after the other, are the tokens of the input in order. This
  holds for the tokens that splitting on whitespace gives, and for the words of the
  source that are not empty.
\<close>

theorem wrap_preserves_tokens:
  "\<exists>ls. wrap (env\<lparr>getlength := \<lambda>f s. Inr (m f s)\<rparr>) fnt s = Inr ls
     \<and> concat (map whitespace_tokens ls) = whitespace_tokens s
     \<and> concat (map nonempty_words ls) = nonempty_words s"
proof -
  let ?ls = "greedy_lines (m fnt) (of_int (EPD_HEIGHT env - 10)) [] (str_split s)"
  have "concat (map whitespace_tokens ?ls)
          = whitespace_tokens [] @ concat (map whitespace_tokens (str_split s))"
    by (rule greedy_tokens) (rule whitespace_tokens_Nil, rule whitespace_tokens_join)
  then have tok_ws: "concat (map whitespace_tokens ?ls) = whitespace_tokens s"
    by (simp only: whitespace_tokens_Nil whitespace_tokens_words append_Nil)
  have "concat (map nonempty_words ?ls)
          = nonempty_words [] @ concat (map nonempty_words (str_split s))"
    by (rule greedy_tokens) (rule nonempty_words_Nil, rule nonempty_words_join)
  then have tok_ne: "concat (map nonempty_words ?ls) = nonempty_words s"
    by (simp only: nonempty_words_Nil nonempty_words_words append_Nil)
  show ?thesis by (simp only: wrap_greedy tok_ws tok_ne sum.inject simp_thms ex_simps)
qed

text \<open>
  Claim C6, as the specification words it: when no whitespace-delimited token is wider
  than the usable width, no line is. A line feed does not end a word of the source: on
  the 40 pixel panel (usable width 30) with the six pixel font, the tokens \<open>''aaa''\<close>
  and \<open>''bbb''\<close> of the input \<open>aaa\<close>, line feed, \<open>bbb\<close> measure 18 pixels each, and the
  source returns an empty line and the whole input as one line of 42 pixels.
\<close>

theorem line_width_whitespace_counterexample:
  "whitespace_tokens (''aaa'' @ [CHR 0x0A] @ ''bbb'') = [''aaa'', ''bbb'']
     \<and> six_px ''aaa'' \<le> of_int (EPD_HEIGHT short_panel - 10)
     \<and> six_px ''bbb'' \<le> of_int (EPD_HEIGHT short_panel - 10)
     \<and> wrap short_panel Font24 (''aaa'' @ [CHR 0x0A] @ ''bbb'')
          = Inr [[], ''aaa'' @ [CHR 0x0A] @ ''bbb'']
     \<and> of_int (EPD_HEIGHT short_panel - 10) < six_px (''aaa'' @ [CHR 0x0A] @ ''bbb'')"
  by (simp add: eval_wrap)

text \<open>
  Claim C6, amended: for every input string in which no word between two space
  characters measures wider than the usable width, every line the wrap step returns
  measures at most the usable width.
\<close>

theorem lines_fit_when_words_fit:
  assumes "\<forall>t\<in>set (str_split s). m fnt t \<le> of_int (EPD_HEIGHT env - 10)"
  shows "\<exists>ls. wrap (env\<lparr>getlength := \<lambda>f s. Inr (m f s)\<rparr>) fnt s = Inr ls
           \<and> (\<forall>l\<in>set ls. m fnt l \<le> of_int (EPD_HEIGHT env - 10))"
proof -
  have "\<forall>l\<in>set (greedy_lines (m fnt) (of_int (EPD_HEIGHT env - 10)) [] (str_split s)).
          m fnt l \<le> of_int (EPD_HEIGHT env - 10)"
    using assms by (intro greedy_fits) simp_all
  then show ?thesis by (simp add: wrap_greedy)
qed

theorem lines_fit_when_words_fit_witness:
  "list_all (\<lambda>t. six_px t \<le> of_int (EPD_HEIGHT panel - 10))
       (str_split ''Hello world this is a jewelry box test message'')
     \<and> (\<exists>ls. wrap (panel\<lparr>getlength := \<lambda>f s. Inr (six_px s)\<rparr>) Font24
                ''Hello world this is a jewelry box test message'' = Inr ls
            \<and> list_all (\<lambda>l. six_px l \<le> of_int (EPD_HEIGHT panel - 10)) ls)"
proof -
  have h: "\<forall>t\<in>set (str_split ''Hello world this is a jewelry box test message'').
             six_px t \<le> of_int (EPD_HEIGHT panel - 10)"
    by (simp add: str_split_def panel_def six_px_def)
  from lines_fit_when_words_fit[of _ "\<lambda>f. six_px" Font24 panel, OF h]
  show ?thesis using h by (simp add: list_all_iff)
qed

text \<open>
  Claim C10: when the loop meets a word wider than the budget while the current line is
  empty, it appends the empty string to the lines and goes on with the word as the
  current line; in particular, when the first word of the input is wider than the usable
  width, the first line returned is the empty string.
\<close>

theorem empty_line_before_wide_token:
  "(getlength env fnt word = Inr len \<and> budget < len
      \<longrightarrow> wrap_loop (getlength env fnt) budget lines [] (word # words)
            = wrap_loop (getlength env fnt) budget (lines @ [[]]) word words)
   \<and> (str_split s = word # words \<and> of_int (EPD_HEIGHT env - 10) < m fnt word
      \<longrightarrow> wrap (env\<lparr>getlength := \<lambda>f s. Inr (m f s)\<rparr>) fnt s
            = Inr ([] # greedy_lines (m fnt) (of_int (EPD_HEIGHT env - 10)) word words))"
  by (simp add: test_line_def wrap_greedy Let_def)

theorem empty_line_before_wide_token_witness:
  "wrap_loop (getlength short_panel Font24) 30 [] [] [''incomprehensibilities'', ''yo'']
      = wrap_loop (getlength short_panel Font24) 30 [[]] ''incomprehensibilities'' [''yo'']
   \<and> wrap (short_panel\<lparr>getlength := \<lambda>f s. Inr (six_px s)\<rparr>) Font24 ''incomprehensibilities yo''
      = Inr [[], ''incomprehensibilities'', ''yo'']"
proof -
  have h1: "getlength short_panel Font24 ''incomprehensibilities'' = Inr 126 \<and> (30::real) < 126"
    by (simp add: short_panel_def panel_def six_px_def)
  have h2: "str_split ''incomprehensibilities yo'' = ''incomprehensibilities'' # [''yo'']
            \<and> of_int (EPD_HEIGHT short_panel - 10) < six_px ''incomprehensibilities''"
    by (simp add: str_split_def short_panel_def panel_def six_px_def)
  from empty_line_before_wide_token[of short_panel Font24 "''incomprehensibilities''" 126 30
      "[]" "[''yo'']" "''incomprehensibilities yo''" "\<lambda>f. six_px"]
  show ?thesis using h1 h2 by (simp add: short_panel_def panel_def six_px_def Let_def)
qed

section \<open>Properties of the handlers\<close>

subsection \<open>The stages of a display update\<close>

lemmas world_ops = epd_call_def logging_def reply_text_def

text \<open>
  The \<^verbatim>\<open>try\<close> body of \<^verbatim>\<open>display_message\<close> ends in one of five ways: the wake
  raises; a step before the paint raises; the paint raises; the sleep raises; nothing
  raises.
\<close>

lemma display_message_try_stages:
  "display_message_try env s fs w =
     (case epd_init env of
        Some e \<Rightarrow> (Some e, epd_call Init (Some e) w)
      | None \<Rightarrow>
        (case prepared env s fs of
           Inl e \<Rightarrow> (Some e, epd_call Init None w)
         | Inr img \<Rightarrow>
           (case epd_display env of
              Some e \<Rightarrow> (Some e, epd_call (Display img []) (Some e) (epd_call Init None w))
            | None \<Rightarrow>
              (case epd_sleep env of
                 Some e \<Rightarrow>
                   (Some e,
                    epd_call Sleep (Some e)
                      (logging INFO ''Message sent to display.''
                         (epd_call (Display img []) None (epd_call Init None w))))
               | None \<Rightarrow>
                   (None,
                    logging INFO ''Display put to sleep after update.''
                      (epd_call Sleep None
                         (logging INFO ''Message sent to display.''
                            (epd_call (Display img []) None (epd_call Init None w)))))))))"
  by (simp add: display_message_try_def prepared_def Let_def split: option.splits sum.splits)

lemma display_message_sink:
  "\<exists>tr. sink (display_message env s fs w) = sink w @ tr
     \<and> (tr = [(Init, epd_init env)]
         \<or> (\<exists>img e. tr = [(Init, None), (Display img [], Some e)])
         \<or> (\<exists>img. tr = [(Init, None), (Display img [], None), (Sleep, epd_sleep env)]))"
  by (simp add: display_message_def display_message_try_stages world_ops
      split: option.splits sum.splits)

text \<open>A display update sends no reply and does not stop the application.\<close>

lemma display_message_frame:
  "replies (display_message env s fs w) = replies w
     \<and> stopped (display_message env s fs w) = stopped w"
  by (simp add: display_message_def display_message_try_stages world_ops
      split: option.splits sum.splits)

lemma display_message_error_logged:
  "display_message_try env s fs w = (Some e, w')
     \<Longrightarrow> display_message env s fs w = logging ERROR (''Error displaying message: '' @ e) w'"
  by (simp add: display_message_def)

lemma display_message_no_error:
  "display_message_try env s fs w = (None, w') \<Longrightarrow> display_message env s fs w = w'"
  by (simp add: display_message_def)

lemma clear_command_sink:
  "effective_user_id u = CHAT_ID env \<Longrightarrow>
   \<exists>tr. sink (clear_command env u w) = sink w @ tr
     \<and> ((\<exists>e. tr = [(Init, Some e)])
         \<or> (\<exists>e. tr = [(Init, None), (Clear, Some e)])
         \<or> tr = [(Init, None), (Clear, None), (Sleep, epd_sleep env)])"
  by (simp add: clear_command_def clear_try_def Let_def world_ops
      split: option.splits sum.splits)

lemma power_after_sleep:
  "c \<noteq> Sleep \<Longrightarrow>
   power_after p [(Init, None), (c, None), (Sleep, x)] = (if x = None then Asleep else Active)"
  by (cases x; cases c) (simp_all add: power_after_def)

text \<open>
  When no drawing call raises and the line height is positive, the drawing loop draws the
  first \<open>n\<close> lines, where \<open>n\<close> is the number of line heights that fit between the
  offset and the lower padding, each at the left padding, one line height below the one
  before.
\<close>

lemma draw_lines_take:
  assumes "0 < lh" and "\<And>d. draw d = None"
    and "int n * lh \<le> dh - 5 - y" and "dh - 5 - y < (int n + 1) * lh"
  shows "\<exists>img. draw_lines draw lh dh y lines = Inr img
           \<and> map (\<lambda>d. snd (snd d)) img = take n lines
           \<and> map (\<lambda>d. fst (snd d)) img = map (\<lambda>k. y + int k * lh) [0..<min n (length lines)]
           \<and> list_all (\<lambda>d. fst d = 5) img"
  using assms(3,4)
proof (induction lines arbitrary: y n)
  case Nil
  show ?case by simp
next
  case (Cons l ls)
  show ?case
  proof (cases "y + lh > dh - 5")
    case True
    have "n = 0"
    proof (rule ccontr)
      assume "n \<noteq> 0"
      then obtain k where k: "n = Suc k" by (cases n) auto
      have "0 \<le> int k * lh" using assms(1) by simp
      with Cons.prems(1) k have "lh \<le> dh - 5 - y" by (simp add: algebra_simps)
      with True show False by simp
    qed
    with True show ?thesis by simp
  next
    case False
    have "n \<noteq> 0"
    proof
      assume "n = 0"
      with Cons.prems(2) have "dh - 5 - y < lh" by simp
      with False show False by simp
    qed
    then obtain k where k: "n = Suc k" by (cases n) auto
    have a: "int k * lh \<le> dh - 5 - (y + lh)"
      using Cons.prems(1) k by (simp add: algebra_simps)
    have b: "dh - 5 - (y + lh) < (int k + 1) * lh"
      using Cons.prems(2) k by (simp add: algebra_simps)
    from Cons.IH[OF a b] obtain img where img:
      "draw_lines draw lh dh (y + lh) ls = Inr img"
      "map (\<lambda>d. snd (snd d)) img = take k ls"
      "map (\<lambda>d. fst (snd d)) img = map (\<lambda>j. y + lh + int j * lh) [0..<min k (length ls)]"
      "list_all (\<lambda>d. fst d = 5) img"
      by blast
    have shift: "map (\<lambda>j. y + int j * lh) [0..<Suc (min k (length ls))]
                   = y # map (\<lambda>j. y + lh + int j * lh) [0..<min k (length ls)]"
      by (simp add: upt_conv_Cons map_Suc_upt[symmetric] algebra_simps del: upt_Suc)
    have "draw_lines draw lh dh y (l # ls) = Inr ((5, y, l) # img)"
      using False img(1) assms(2) by simp
    moreover have "map (\<lambda>d. snd (snd d)) ((5, y, l) # img) = take n (l # ls)"
      using img(2) k by simp
    moreover have "map (\<lambda>d. fst (snd d)) ((5, y, l) # img)
                     = map (\<lambda>j. y + int j * lh) [0..<min n (length (l # ls))]"
      using img(3) k shift by simp
    moreover have "list_all (\<lambda>d. fst d = 5) ((5, y, l) # img)"
      using img(4) by simp
    ultimately show ?thesis by blast
  qed
qed

text \<open>Every event that a handler takes gets exactly one reply.\<close>

lemma one_reply_per_event:
  "taken kind \<Longrightarrow> length (replies (dispatch env kind u w)) = Suc (length (replies w))"
  using display_message_frame[of env "message_text u" 24]
  by (cases kind)
     (auto simp add: dispatch_def taken_def start_command_def handle_message_def
        clear_command_def clear_try_def shutdown_command_def Let_def world_ops
        split: option.splits)

subsection \<open>Evaluating the handlers on given inputs\<close>

lemmas eval_handlers = display_message_def display_message_try_stages prepared_def
  handle_message_def clear_command_def clear_try_def select_font_def
  paint_fails_def clear_fails_def owner_def stranger_def quiet_def world_ops

subsection \<open>The claims about the handlers\<close>

text \<open>
  Claim C1, as stated: after every paint or clear a sleep call is issued, also when the
  paint or clear raises, so that the panel is never left \<open>Active\<close>. The sleep calls of
  lines 186 and 234 stand inside the \<^verbatim>\<open>try\<close>, after the paint and the clear: with a
  driver whose \<^verbatim>\<open>display\<close> raises, the message \<open>''hi''\<close> gives the calls wake and
  paint and no sleep, and a panel that was \<open>Asleep\<close> is left \<open>Active\<close>; the same holds
  for the clear command with a driver whose \<^verbatim>\<open>Clear\<close> raises.
\<close>

theorem no_sleep_after_failed_paint_counterexample:
  "sink (display_message paint_fails ''hi'' 24 quiet)
      = [(Init, None), (Display [(5, 5, ''hi'')] [], Some ''SPI bus error'')]
   \<and> power_after Asleep (sink (display_message paint_fails ''hi'' 24 quiet)) = Active
   \<and> sink (clear_command clear_fails (owner ''/clear'') quiet)
      = [(Init, None), (Clear, Some ''SPI bus error'')]
   \<and> power_after Asleep (sink (clear_command clear_fails (owner ''/clear'') quiet)) = Active"
  by (simp add: eval_handlers eval_wrap power_after_def)

text \<open>
  Claim C1, amended: for every message-display operation and every clear operation in
  which the wake and the paint or clear return, a sleep call is issued right after the
  paint or clear and is the last call of the operation, and when that sleep call returns
  the panel ends \<open>Asleep\<close>; when the wake, a step before the paint, or the paint or
  clear raises, the operation ends without a sleep call: the panel receives the wake
  alone, or the wake and the failed paint or clear.
\<close>

theorem sleep_follows_completed_paint_or_clear:
  "(epd_init env = None \<and> prepared env s fs = Inr img \<and> epd_display env = None \<longrightarrow>
      sink (display_message env s fs w)
        = sink w @ [(Init, None), (Display img [], None), (Sleep, epd_sleep env)]
      \<and> (epd_sleep env = None \<longrightarrow>
            power_after p (sink (display_message env s fs w)) = Asleep))
   \<and> (epd_init env = Some e \<longrightarrow>
        sink (display_message env s fs w) = sink w @ [(Init, Some e)])
   \<and> (epd_init env = None \<and> prepared env s fs = Inl e \<longrightarrow>
        sink (display_message env s fs w) = sink w @ [(Init, None)])
   \<and> (epd_init env = None \<and> prepared env s fs = Inr img \<and> epd_display env = Some e \<longrightarrow>
        sink (display_message env s fs w)
          = sink w @ [(Init, None), (Display img [], Some e)])
   \<and> (effective_user_id u = CHAT_ID env \<and> epd_init env = None \<and> epd_Clear env = None \<longrightarrow>
        sink (clear_command env u w)
          = sink w @ [(Init, None), (Clear, None), (Sleep, epd_sleep env)]
        \<and> (epd_sleep env = None \<longrightarrow>
              power_after p (sink (clear_command env u w)) = Asleep))
   \<and> (effective_user_id u = CHAT_ID env \<and> epd_init env = Some e \<longrightarrow>
        sink (clear_command env u w) = sink w @ [(Init, Some e)])
   \<and> (effective_user_id u = CHAT_ID env \<and> epd_init env = None \<and> epd_Clear env = Some e \<longrightarrow>
        sink (clear_command env u w) = sink w @ [(Init, None), (Clear, Some e)])"
proof (intro conjI impI)
  assume h: "epd_init env = None \<and> prepared env s fs = Inr img \<and> epd_display env = None"
  then show d: "sink (display_message env s fs w)
        = sink w @ [(Init, None), (Display img [], None), (Sleep, epd_sleep env)]"
    by (simp add: display_message_def display_message_try_stages world_ops
        split: option.splits)
  assume "epd_sleep env = None"
  with d show "power_after p (sink (display_message env s fs w)) = Asleep"
    by (simp add: power_after_def)
next
  assume "epd_init env = Some e"
  then show "sink (display_message env s fs w) = sink w @ [(Init, Some e)]"
    by (simp add: display_message_def display_message_try_stages world_ops)
next
  assume "epd_init env = None \<and> prepared env s fs = Inl e"
  then show "sink (display_message env s fs w) = sink w @ [(Init, None)]"
    by (simp add: display_message_def display_message_try_stages world_ops)
next
  assume "epd_init env = None \<and> prepared env s fs = Inr img \<and> epd_display env = Some e"
  then show "sink (display_message env s fs w)
          = sink w @ [(Init, None), (Display img [], Some e)]"
    by (simp add: display_message_def display_message_try_stages world_ops)
next
  assume h: "effective_user_id u = CHAT_ID env \<and> epd_init env = None \<and> epd_Clear env = None"
  then show c: "sink (clear_command env u w)
          = sink w @ [(Init, None), (Clear, None), (Sleep, epd_sleep env)]"
    by (simp add: clear_command_def clear_try_def Let_def world_ops split: option.splits)
  assume "epd_sleep env = None"
  with c show "power_after p (sink (clear_command env u w)) = Asleep"
    by (simp add: power_after_def)
next
  assume "effective_user_id u = CHAT_ID env \<and> epd_init env = Some e"
  then show "sink (clear_command env u w) = sink w @ [(Init, Some e)]"
    by (simp add: clear_command_def clear_try_def Let_def world_ops)
next
  assume "effective_user_id u = CHAT_ID env \<and> epd_init env = None \<and> epd_Clear env = Some e"
  then show "sink (clear_command env u w) = sink w @ [(Init, None), (Clear, Some e)]"
    by (simp add: clear_command_def clear_try_def Let_def world_ops)
qed

theorem sleep_follows_completed_paint_or_clear_witness:
  "epd_init panel = None \<and> prepared panel ''hi'' 24 = Inr [(5, 5, ''hi'')]
   \<and> epd_display panel = None \<and> epd_Clear panel = None \<and> epd_sleep panel = None
   \<and> effective_user_id (owner ''/clear'') = CHAT_ID panel
   \<and> sink (display_message panel ''hi'' 24 quiet)
       = [(Init, None), (Display [(5, 5, ''hi'')] [], None), (Sleep, None)]
   \<and> power_after Active (sink (display_message panel ''hi'' 24 quiet)) = Asleep
   \<and> sink (clear_command panel (owner ''/clear'') quiet)
       = [(Init, None), (Clear, None), (Sleep, None)]
   \<and> power_after Active (sink (clear_command panel (owner ''/clear'') quiet)) = Asleep
   \<and> epd_init paint_fails = None \<and> prepared paint_fails ''hi'' 24 = Inr [(5, 5, ''hi'')]
   \<and> epd_display paint_fails = Some ''SPI bus error''
   \<and> sink (display_message paint_fails ''hi'' 24 quiet)
       = [(Init, None), (Display [(5, 5, ''hi'')] [], Some ''SPI bus error'')]
   \<and> effective_user_id (owner ''/clear'') = CHAT_ID clear_fails
   \<and> epd_init clear_fails = None \<and> epd_Clear clear_fails = Some ''SPI bus error''
   \<and> sink (clear_command clear_fails (owner ''/clear'') quiet)
       = [(Init, None), (Clear, Some ''SPI bus error'')]"
proof -
  have ok: "epd_init panel = None" "prepared panel ''hi'' 24 = Inr [(5, 5, ''hi'')]"
    "epd_display panel = None" "epd_Clear panel = None" "epd_sleep panel = None"
    "effective_user_id (owner ''/clear'') = CHAT_ID panel"
    by (simp_all add: prepared_def select_font_def owner_def eval_wrap)
  have bad: "epd_init paint_fails = None" "prepared paint_fails ''hi'' 24 = Inr [(5, 5, ''hi'')]"
    "epd_display paint_fails = Some ''SPI bus error''"
    "effective_user_id (owner ''/clear'') = CHAT_ID clear_fails"
    "epd_init clear_fails = None" "epd_Clear clear_fails = Some ''SPI bus error''"
    by (simp_all add: prepared_def select_font_def owner_def paint_fails_def clear_fails_def
        eval_wrap)
  have q: "sink quiet = []" by (simp add: quiet_def)
  from sleep_follows_completed_paint_or_clear[of panel "''hi''" 24 "[(5, 5, ''hi'')]" quiet
      Active "''none''" "owner ''/clear''"]
    sleep_follows_completed_paint_or_clear[of paint_fails "''hi''" 24 "[(5, 5, ''hi'')]" quiet
      Active "''SPI bus error''" "owner ''/clear''"]
    sleep_follows_completed_paint_or_clear[of clear_fails "''hi''" 24 "[(5, 5, ''hi'')]" quiet
      Active "''SPI bus error''" "owner ''/clear''"]
  show ?thesis using ok bad q by (simp add: power_after_def)
qed

text \<open>
  Claim C4: when the usable height (the panel's short side less ten pixels) fits exactly
  \<open>N\<close> lines of height \<open>font_size + 2\<close> and the wrap returns more than \<open>N\<close> lines,
  the image painted holds exactly the first \<open>N\<close> lines of the wrap, the first at
  \<open>y = 5\<close> and each next one line height lower; the other lines are dropped, and the
  update ends with the sleep call and without an error in the log.
\<close>

theorem truncation_keeps_first_lines:
  assumes "epd_init env = None" and "Image_new env = None" and "\<forall>d. draw_text env d = None"
    and "Image_rotate env = None" and "epd_getbuffer env = None"
    and "epd_display env = None" and "epd_sleep env = None"
    and "wrap env (select_font font_size) s = Inr lines"
    and "0 < font_size + 2"
    and "int N * (font_size + 2) \<le> EPD_WIDTH env - 10"
    and "EPD_WIDTH env - 10 < (int N + 1) * (font_size + 2)"
    and "N < length lines"
  shows "\<exists>img. map (\<lambda>d. snd (snd d)) img = take N lines
           \<and> length img = N
           \<and> map (\<lambda>d. fst (snd d)) img = map (\<lambda>k. 5 + int k * (font_size + 2)) [0..<N]
           \<and> display_message env s font_size w
               = w\<lparr>sink := sink w @ [(Init, None), (Display img [], None), (Sleep, None)],
                   logs := logs w @ [(INFO, ''Message sent to display.''),
                                     (INFO, ''Display put to sleep after update.'')]\<rparr>"
proof -
  have a: "int N * (font_size + 2) \<le> EPD_WIDTH env - 5 - 5" using assms(10) by simp
  have b: "EPD_WIDTH env - 5 - 5 < (int N + 1) * (font_size + 2)" using assms(11) by simp
  have nodraw: "\<And>d. draw_text env d = None" using assms(3) by blast
  from draw_lines_take[of "font_size + 2" "draw_text env" N "EPD_WIDTH env" 5 lines,
      OF assms(9) nodraw a b]
  obtain img where img: "draw_lines (draw_text env) (font_size + 2) (EPD_WIDTH env) 5 lines = Inr img"
    "map (\<lambda>d. snd (snd d)) img = take N lines"
    "map (\<lambda>d. fst (snd d)) img = map (\<lambda>k. 5 + int k * (font_size + 2)) [0..<min N (length lines)]"
    by blast
  have "length (map (\<lambda>d. snd (snd d)) img) = N"
    using img(2) assms(12) by simp
  then have len: "length img = N" by simp
  have ys: "map (\<lambda>d. fst (snd d)) img = map (\<lambda>k. 5 + int k * (font_size + 2)) [0..<N]"
    using img(3) assms(12) by (simp add: min_def)
  have "prepared env s font_size = Inr img"
    using assms(2,4,5,8) img(1) by (simp add: prepared_def)
  then have "display_message env s font_size w
               = w\<lparr>sink := sink w @ [(Init, None), (Display img [], None), (Sleep, None)],
                   logs := logs w @ [(INFO, ''Message sent to display.''),
                                     (INFO, ''Display put to sleep after update.'')]\<rparr>"
    using assms(1,6,7)
    by (simp add: display_message_def display_message_try_stages world_ops)
  with img(2) len ys show ?thesis by blast
qed

theorem truncation_keeps_first_lines_witness:
  "wrap short_panel (select_font 24) ''aaaaa bbbbb ccccc ddddd eeeee fffff''
     = Inr [''aaaaa'', ''bbbbb'', ''ccccc'', ''ddddd'', ''eeeee'', ''fffff'']
   \<and> int 4 * (24 + 2) \<le> EPD_WIDTH short_panel - 10
   \<and> EPD_WIDTH short_panel - 10 < (int 4 + 1) * (24 + 2)
   \<and> (\<exists>img. map (\<lambda>d. snd (snd d)) img = [''aaaaa'', ''bbbbb'', ''ccccc'', ''ddddd'']
          \<and> length img = 4
          \<and> map (\<lambda>d. fst (snd d)) img = [5, 31, 57, 83]
          \<and> display_message short_panel ''aaaaa bbbbb ccccc ddddd eeeee fffff'' 24 quiet
               = quiet\<lparr>sink := sink quiet @ [(Init, None), (Display img [], None), (Sleep, None)],
                       logs := logs quiet @ [(INFO, ''Message sent to display.''),
                                             (INFO, ''Display put to sleep after update.'')]\<rparr>)"
proof -
  have e: "epd_init short_panel = None" "Image_new short_panel = None"
    "\<forall>d. draw_text short_panel d = None" "Image_rotate short_panel = None"
    "epd_getbuffer short_panel = None" "epd_display short_panel = None"
    "epd_sleep short_panel = None"
    by (simp_all add: short_panel_def panel_def)
  have l: "wrap short_panel (select_font 24) ''aaaaa bbbbb ccccc ddddd eeeee fffff''
     = Inr [''aaaaa'', ''bbbbb'', ''ccccc'', ''ddddd'', ''eeeee'', ''fffff'']"
    by (simp add: eval_wrap select_font_def)
  have p: "(0::int) < 24 + 2" by simp
  have a: "int 4 * (24 + 2) \<le> EPD_WIDTH short_panel - 10"
    by (simp add: short_panel_def panel_def)
  have b: "EPD_WIDTH short_panel - 10 < (int 4 + 1) * (24 + 2)"
    by (simp add: short_panel_def panel_def)
  have n: "4 < length [''aaaaa'', ''bbbbb'', ''ccccc'', ''ddddd'', ''eeeee'', ''fffff'']"
    by simp
  have u: "[0..<4] = [0, Suc 0, 2, 3::nat]"
    by (simp add: upt_conv_Cons)
  from truncation_keeps_first_lines[OF e l p a b n, of quiet]
  show ?thesis using l a b u by simp
qed

text \<open>
  Claim C7, as stated: every inbound event from an identity other than the configured one
  gets a rejection reply. The identity is compared inside the handlers only (lines 202,
  215, 227 and 245), and \<^verbatim>\<open>main\<close> registers no handler for a command other than
  \<^verbatim>\<open>start\<close>, \<^verbatim>\<open>clear\<close> and \<^verbatim>\<open>shutdown\<close>, nor for a message without text:
  the command \<^verbatim>\<open>/help\<close> from another identity is taken by no handler, nothing is
  compared, and no reply is sent.
\<close>

theorem unrouted_event_counterexample:
  "effective_user_id (stranger ''/help'') \<noteq> CHAT_ID panel
   \<and> dispatch panel (Command ''help'') (stranger ''/help'') quiet = quiet
   \<and> replies (dispatch panel (Command ''help'') (stranger ''/help'') quiet) = []"
  by (simp add: dispatch_def stranger_def panel_def quiet_def)

text \<open>
  Claim C7, amended: for every inbound event that one of the registered handlers takes
  (the commands \<^verbatim>\<open>start\<close>, \<^verbatim>\<open>clear\<close> and \<^verbatim>\<open>shutdown\<close>, and text that is not
  a command) and whose sender identity is not exactly the configured one, a rejection
  reply is sent, the panel receives no call and no state changes (the application is not
  stopped; the log gains the entry of the arrival and a warning); an event that no
  handler takes gets no reply and changes nothing.
\<close>

theorem unauthorized_rejected:
  assumes "effective_user_id u \<noteq> CHAT_ID env"
  shows "(taken kind \<longrightarrow>
            sink (dispatch env kind u w) = sink w
          \<and> stopped (dispatch env kind u w) = stopped w
          \<and> (\<exists>msg. replies (dispatch env kind u w) = replies w @ [msg]
                 \<and> take 22 msg = ''You are not authorized'')
          \<and> (\<exists>seen warned.
                 logs (dispatch env kind u w) = logs w @ [(INFO, seen), (WARNING, warned)]))
       \<and> (\<not> taken kind \<longrightarrow> dispatch env kind u w = w)"
proof (cases kind)
  case (Command name)
  with assms show ?thesis
    by (simp add: dispatch_def taken_def start_command_def clear_command_def
        shutdown_command_def Let_def world_ops)
next
  case PlainText
  with assms show ?thesis
    by (simp add: dispatch_def taken_def handle_message_def Let_def world_ops)
next
  case NoText
  then show ?thesis by (simp add: dispatch_def taken_def)
qed

theorem unauthorized_rejected_witness:
  "effective_user_id (stranger ''/clear'') \<noteq> CHAT_ID panel
     \<and> taken (Command ''clear'')
     \<and> sink (dispatch panel (Command ''clear'') (stranger ''/clear'') quiet) = []
     \<and> stopped (dispatch panel (Command ''clear'') (stranger ''/clear'') quiet) = False
     \<and> (\<exists>msg. replies (dispatch panel (Command ''clear'') (stranger ''/clear'') quiet) = [msg]
            \<and> take 22 msg = ''You are not authorized'')
     \<and> \<not> taken NoText
     \<and> dispatch panel NoText (stranger ''/clear'') quiet = quiet"
proof -
  have h: "effective_user_id (stranger ''/clear'') \<noteq> CHAT_ID panel"
    by (simp add: stranger_def panel_def)
  have t: "taken (Command ''clear'')" "\<not> taken NoText"
    by (simp_all add: taken_def)
  from unauthorized_rejected[OF h, of "Command ''clear''" quiet]
    unauthorized_rejected[OF h, of NoText quiet]
  show ?thesis using h t by (simp add: quiet_def)
qed

text \<open>
  Claim C8: every event gets exactly one reply, and when the paint or the clear fails the
  reply describes the error. The source sends one reply for every event that a handler
  takes (\<open>one_reply_per_event\<close>), but for a text message whose paint raises the reply is the
  acknowledgment of success: the exception is caught and logged inside
  \<^verbatim>\<open>display_message\<close>, and line 221 replies whatever happened. The clear command,
  beside it, replies with the error text.
\<close>

theorem paint_failure_acknowledged_as_sent:
  "replies (handle_message paint_fails (owner ''hi'') quiet) = [''Message sent to e-paper display!'']
   \<and> sink (handle_message paint_fails (owner ''hi'') quiet)
       = [(Init, None), (Display [(5, 5, ''hi'')] [], Some ''SPI bus error'')]
   \<and> last (logs (handle_message paint_fails (owner ''hi'') quiet))
       = (ERROR, ''Error displaying message: SPI bus error'')
   \<and> replies (clear_command clear_fails (owner ''/clear'') quiet)
       = [''Error clearing display: SPI bus error'']"
  by (simp add: eval_handlers eval_wrap)

text \<open>
  Claim C9: \<^verbatim>\<open>display_message\<close> never hands an exception to its caller. Every
  exception of the \<^verbatim>\<open>try\<close> body, from the wake, the layout, the drawing, the
  rotation or the paint, ends in the \<^verbatim>\<open>except\<close> clause, whose only effect is an
  error entry in the log; the function sends no reply and does not stop the
  application, and an authorized text message gets the acknowledgment of success
  whatever the outcome of the update.
\<close>

theorem display_errors_caught_and_acknowledged:
  "replies (display_message env s fs w) = replies w
   \<and> stopped (display_message env s fs w) = stopped w
   \<and> (\<forall>e w'. display_message_try env s fs w = (Some e, w')
         \<longrightarrow> display_message env s fs w = logging ERROR (''Error displaying message: '' @ e) w')
   \<and> (effective_user_id u = CHAT_ID env
         \<longrightarrow> replies (handle_message env u w) = replies w @ [''Message sent to e-paper display!'']
           \<and> stopped (handle_message env u w) = stopped w)"
proof -
  have "replies (handle_message env u w) = replies w @ [''Message sent to e-paper display!'']
           \<and> stopped (handle_message env u w) = stopped w"
    if "effective_user_id u = CHAT_ID env"
    using that display_message_frame[of env "message_text u" 24]
    by (simp add: handle_message_def Let_def world_ops)
  then show ?thesis
    using display_message_frame[of env s fs w] display_message_error_logged[of env s fs w]
    by blast
qed

theorem display_errors_caught_and_acknowledged_witness:
  "display_message_try paint_fails ''hi'' 24 quiet
      = (Some ''SPI bus error'',
         quiet\<lparr>sink := [(Init, None), (Display [(5, 5, ''hi'')] [], Some ''SPI bus error'')]\<rparr>)
   \<and> display_message paint_fails ''hi'' 24 quiet
      = logging ERROR ''Error displaying message: SPI bus error''
          (quiet\<lparr>sink := [(Init, None), (Display [(5, 5, ''hi'')] [], Some ''SPI bus error'')]\<rparr>)
   \<and> effective_user_id (owner ''hi'') = CHAT_ID paint_fails
   \<and> replies (handle_message paint_fails (owner ''hi'') quiet)
      = [''Message sent to e-paper display!'']"
proof -
  have t: "display_message_try paint_fails ''hi'' 24 quiet
      = (Some ''SPI bus error'',
         quiet\<lparr>sink := [(Init, None), (Display [(5, 5, ''hi'')] [], Some ''SPI bus error'')]\<rparr>)"
    by (simp add: eval_handlers eval_wrap)
  have h: "effective_user_id (owner ''hi'') = CHAT_ID paint_fails"
    by (simp add: owner_def paint_fails_def panel_def)
  from display_errors_caught_and_acknowledged[of paint_fails "''hi''" 24 quiet "owner ''hi''"]
  show ?thesis using t h by (simp add: quiet_def)
qed

end
